theory Spec2Isabelle
  imports Main "HOL-Library.AList"
begin

section \<open>Common data\<close>

text \<open>
  The scheduler of \<^verbatim>\<open>pulp.server.async.scheduler\<close> is Python 2 code. Exceptions are
  values of \<open>py_error\<close>; a handler returns the exception it raised, if any, together with
  the state it left behind.
\<close>

datatype py_error =
  KeyError | TypeError | ValueError | OverflowError | AttributeError | NotImplementedError

text \<open>
  A celery event is a dict from field names to values. A string field is \<open>EStr\<close>; a
  numeric field (the \<^verbatim>\<open>timestamp\<close>, seconds since the epoch as a float) is \<open>ENum\<close>,
  holding the number in microseconds, the resolution of \<^verbatim>\<open>datetime\<close>.
\<close>

datatype ev_val = EStr string | ENum int

type_synonym event = "string \<rightharpoonup> ev_val"

text \<open>
  A Python dict is an association list with pairwise distinct keys; \<open>dict_pop\<close> is
  \<^verbatim>\<open>d.pop(k, default)\<close>, the default being \<open>None\<close> of the option type.
\<close>

type_synonym ('k, 'v) dict = "('k \<times> 'v) list"

definition dict_pop :: "'k \<Rightarrow> ('k, 'v) dict \<Rightarrow> 'v option \<times> ('k, 'v) dict" where
  "dict_pop k d = (map_of d k, AList.delete k d)"

section \<open>FailureWatcher\<close>

text \<open>
  \<^verbatim>\<open>WatchedTask = namedtuple('WatchedTask', ['timestamp', 'schedule_id', 'has_failure'])\<close>.
  The timestamp is \<^verbatim>\<open>int(time.time())\<close>, whole seconds since the epoch.
\<close>

record watched_task =
  timestamp :: nat
  schedule_id :: string
  has_failure :: bool

type_synonym watch_table = "(string, watched_task) dict"

text \<open>\<^verbatim>\<open>ttl = 60*60*4\<close>\<close>

definition ttl :: nat where
  "ttl = 60 * 60 * 4"

text \<open>
  \<^verbatim>\<open>trim\<close> evaluates \<^verbatim>\<open>self._watches.items()\<close> once (a list, in Python 2), keeps the
  ids whose watch is older than \<^verbatim>\<open>int(time.time()) - self.ttl\<close>, and pops them one by
  one. \<open>now\<close> is the value of \<^verbatim>\<open>int(time.time())\<close>.
\<close>

definition oldest_allowed :: "nat \<Rightarrow> int" where
  "oldest_allowed now = int now - int ttl"

definition stale_ids :: "nat \<Rightarrow> watch_table \<Rightarrow> string list" where
  "stale_ids now ws =
     map fst (filter (\<lambda>(task_id, watch). int (timestamp watch) < oldest_allowed now) ws)"

text \<open>One step of the loop: \<^verbatim>\<open>self._watches.pop(task_id, None)\<close>.\<close>

definition pop_step :: "string \<Rightarrow> watch_table \<Rightarrow> watch_table" where
  "pop_step task_id ws = snd (dict_pop task_id ws)"

definition trim :: "nat \<Rightarrow> watch_table \<Rightarrow> watch_table" where
  "trim now ws = fold pop_step (stale_ids now ws) ws"

definition add :: "nat \<Rightarrow> string \<Rightarrow> string \<Rightarrow> bool \<Rightarrow> watch_table \<Rightarrow> watch_table" where
  "add now task_id sid hf ws =
     AList.update task_id \<lparr>timestamp = now, schedule_id = sid, has_failure = hf\<rparr> ws"

text \<open>
  \<^verbatim>\<open>pop\<close> returns \<^verbatim>\<open>self._watches.pop(task_id, self._default_pop)[1:]\<close> with
  \<^verbatim>\<open>_default_pop = (None, None, None)\<close>: the pair \<open>(None, None)\<close> for a missing key.
\<close>

definition pop :: "string \<Rightarrow> watch_table \<Rightarrow> (string option \<times> bool option) \<times> watch_table" where
  "pop task_id ws =
     (case dict_pop task_id ws of
        (None, ws') \<Rightarrow> ((None, None), ws')
      | (Some w, ws') \<Rightarrow> ((Some (schedule_id w), Some (has_failure w)), ws'))"

text \<open>\<^verbatim>\<open>__len__\<close>\<close>

definition len :: "watch_table \<Rightarrow> nat" where
  "len ws = length ws"

text \<open>
  The schedule id of a watch is the id of the schedule whose task was queued
  (\<^verbatim>\<open>entry.name\<close> in \<^verbatim>\<open>Scheduler.apply_async\<close>), or the id taken over from the parent's
  watch inside \<^verbatim>\<open>if schedule_id:\<close>; it is never empty.
\<close>

definition schedule_ids_nonempty :: "watch_table \<Rightarrow> bool" where
  "schedule_ids_nonempty ws = list_all (\<lambda>(task_id, watch). schedule_id watch \<noteq> []) ws"

text \<open>
  The event handlers also call the schedule store
  (\<^verbatim>\<open>utils.reset_failure_count\<close>, \<^verbatim>\<open>utils.increment_failure_count\<close>). The store is
  external; the calls made to it are recorded, in order, in \<open>store_calls\<close>.
\<close>

datatype store_call = reset_failure_count string | increment_failure_count string

record fw_state =
  watches :: watch_table
  store_calls :: "store_call list"

text \<open>
  \<^verbatim>\<open>AsyncResult(event_id, app=app).result\<close> is read from the result backend, here the
  function \<open>result_of\<close>. The handler only asks whether the result is itself an
  \<^verbatim>\<open>AsyncResult\<close>, and then for its \<^verbatim>\<open>id\<close>.
\<close>

datatype task_result = OtherResult | AsyncResult string

text \<open>
  \<^verbatim>\<open>event['uuid']\<close> raises \<^verbatim>\<open>KeyError\<close> when the field is missing. The keys of the
  table are strings, so a uuid that is not a string is never found. \<^verbatim>\<open>if schedule_id:\<close>
  tests the truth value of the popped schedule id: \<^verbatim>\<open>None\<close> and the empty string are
  both false.
\<close>

definition handle_succeeded_task ::
  "nat \<Rightarrow> (string \<Rightarrow> task_result) \<Rightarrow> event \<Rightarrow> fw_state \<Rightarrow> py_error option \<times> fw_state" where
  "handle_succeeded_task now result_of event s =
     (case event ''uuid'' of
        None \<Rightarrow> (Some KeyError, s)
      | Some (ENum n) \<Rightarrow> (None, s)
      | Some (EStr event_id) \<Rightarrow>
          (case pop event_id (watches s) of
             ((Some sid, Some hf), ws') \<Rightarrow>
               if sid \<noteq> [] then
                 (case result_of event_id of
                    AsyncResult child_id \<Rightarrow>
                      (None, s\<lparr>watches := add now child_id sid hf ws'\<rparr>)
                  | OtherResult \<Rightarrow>
                      if hf then
                        (None, s\<lparr>watches := ws',
                                  store_calls := store_calls s @ [reset_failure_count sid]\<rparr>)
                      else (None, s\<lparr>watches := ws'\<rparr>))
               else (None, s\<lparr>watches := ws'\<rparr>)
           | (_, ws') \<Rightarrow> (None, s\<lparr>watches := ws'\<rparr>)))"

definition handle_failed_task :: "event \<Rightarrow> fw_state \<Rightarrow> py_error option \<times> fw_state" where
  "handle_failed_task event s =
     (case event ''uuid'' of
        None \<Rightarrow> (Some KeyError, s)
      | Some (ENum n) \<Rightarrow> (None, s)
      | Some (EStr event_id) \<Rightarrow>
          (case pop event_id (watches s) of
             ((Some sid, _), ws') \<Rightarrow>
               if sid \<noteq> [] then
                 (None, s\<lparr>watches := ws',
                           store_calls := store_calls s @ [increment_failure_count sid]\<rparr>)
               else (None, s\<lparr>watches := ws'\<rparr>)
           | (_, ws') \<Rightarrow> (None, s\<lparr>watches := ws'\<rparr>)))"

section \<open>WorkerWatcher and WorkerTimeoutMonitor\<close>

text \<open>
  An \<^verbatim>\<open>AvailableQueue\<close> row of the worker registry. A naive UTC \<^verbatim>\<open>datetime\<close> is the
  number of microseconds since the epoch. The registry is the collection of rows, in the
  order the database returns them.
\<close>

record available_queue =
  name :: string
  last_heartbeat :: int
  num_reservations :: nat

text \<open>A task submitted with \<^verbatim>\<open>apply_async(args=..., queue=...)\<close>.\<close>

record submission =
  task :: string
  args :: "string list"
  queue :: string

record world =
  registry :: "available_queue list"
  submitted :: "submission list"

definition RESOURCE_MANAGER_PREFIX :: string where
  "RESOURCE_MANAGER_PREFIX = ''resource_manager@''"

text \<open>
  Modelled from the spec: \<^verbatim>\<open>RESOURCE_MANAGER_QUEUE\<close> of
  \<^verbatim>\<open>pulp.server.async.celery_instance\<close>, the fixed queue \<^verbatim>\<open>resource_manager\<close>.
\<close>

definition RESOURCE_MANAGER_QUEUE :: string where
  "RESOURCE_MANAGER_QUEUE = ''resource_manager''"

text \<open>
  Modelled from the spec: \<^verbatim>\<open>resources.filter_available_queues\<close> of
  \<^verbatim>\<open>pulp.server.managers.resources\<close>, the registry's filter with the two predicates the
  scheduler uses, \<^verbatim>\<open>{'_id': name}\<close> and \<^verbatim>\<open>{'last_heartbeat': {'$lt': t}}\<close>.
\<close>

datatype criteria = Id_is ev_val | Last_heartbeat_lt int

fun filter_available_queues :: "criteria \<Rightarrow> available_queue list \<Rightarrow> available_queue list" where
  "filter_available_queues (Id_is v) rows = filter (\<lambda>r. EStr (name r) = v) rows"
| "filter_available_queues (Last_heartbeat_lt t) rows = filter (\<lambda>r. last_heartbeat r < t) rows"

text \<open>
  Modelled from the spec: \<^verbatim>\<open>AvailableQueue.save\<close> of
  \<^verbatim>\<open>pulp.server.db.model.resources\<close>, an upsert of the row keyed by its name.
\<close>

definition save :: "available_queue \<Rightarrow> available_queue list \<Rightarrow> available_queue list" where
  "save r rows =
     (if name r \<in> name ` set rows then map (\<lambda>x. if name x = name r then r else x) rows
      else rows @ [r])"

text \<open>
  \<^verbatim>\<open>_delete_queue.apply_async(args=(worker_name,), queue=RESOURCE_MANAGER_QUEUE)\<close>
\<close>

definition delete_queue_apply_async :: "string \<Rightarrow> world \<Rightarrow> world" where
  "delete_queue_apply_async worker_name w =
     w\<lparr>submitted := submitted w @
         [\<lparr>task = ''_delete_queue'', args = [worker_name], queue = RESOURCE_MANAGER_QUEUE\<rparr>]\<rparr>"

text \<open>
  \<^verbatim>\<open>re.match('^%s' % RESOURCE_MANAGER_PREFIX, event['hostname'])\<close>: the prefix has no
  special character, so the match succeeds exactly when the hostname starts with it.
  \<^verbatim>\<open>re.match\<close> raises \<^verbatim>\<open>TypeError\<close> on a value that is not a string.
\<close>

definition is_resource_manager :: "event \<Rightarrow> py_error + bool" where
  "is_resource_manager event =
     (case event ''hostname'' of
        None \<Rightarrow> Inl KeyError
      | Some (ENum n) \<Rightarrow> Inl TypeError
      | Some (EStr hostname) \<Rightarrow>
          Inr (take (length RESOURCE_MANAGER_PREFIX) hostname = RESOURCE_MANAGER_PREFIX))"

record event_info =
  ei_timestamp :: int
  ei_type :: ev_val
  worker_name :: ev_val

text \<open>
  \<^verbatim>\<open>_parse_and_log_event\<close> builds the dict in the order timestamp, type, worker_name;
  each missing field raises \<^verbatim>\<open>KeyError\<close>. \<open>utcfromtimestamp\<close> is the library's
  \<^verbatim>\<open>datetime.utcfromtimestamp\<close>: it returns the naive UTC time, or raises
  \<^verbatim>\<open>TypeError\<close> on a value that is not a number and \<^verbatim>\<open>ValueError\<close> or
  \<^verbatim>\<open>OverflowError\<close> on a number outside the range the platform supports. Writing to
  the log is not part of the model.
\<close>

definition parse_and_log_event ::
  "(ev_val \<Rightarrow> py_error + int) \<Rightarrow> event \<Rightarrow> py_error + event_info" where
  "parse_and_log_event utcfromtimestamp event =
     (case event ''timestamp'' of
        None \<Rightarrow> Inl KeyError
      | Some ts \<Rightarrow>
          (case utcfromtimestamp ts of
             Inl e \<Rightarrow> Inl e
           | Inr dt \<Rightarrow>
               (case event ''type'' of
                  None \<Rightarrow> Inl KeyError
                | Some ty \<Rightarrow>
                    (case event ''hostname'' of
                       None \<Rightarrow> Inl KeyError
                     | Some h \<Rightarrow>
                         Inr \<lparr>ei_timestamp = dt, ei_type = ty, worker_name = h\<rparr>))))"

definition handle_worker_heartbeat ::
  "(ev_val \<Rightarrow> py_error + int) \<Rightarrow> event \<Rightarrow> world \<Rightarrow> py_error option \<times> world" where
  "handle_worker_heartbeat utcfromtimestamp event w =
     (case parse_and_log_event utcfromtimestamp event of
        Inl e \<Rightarrow> (Some e, w)
      | Inr info \<Rightarrow>
          (case is_resource_manager event of
             Inl e \<Rightarrow> (Some e, w)
           | Inr True \<Rightarrow> (None, w)
           | Inr False \<Rightarrow>
               (case filter_available_queues (Id_is (worker_name info)) (registry w) of
                  existing_worker # rest \<Rightarrow>
                    (None, w\<lparr>registry :=
                       save (existing_worker\<lparr>last_heartbeat := ei_timestamp info\<rparr>) (registry w)\<rparr>)
                | [] \<Rightarrow>
                    (case worker_name info of
                       EStr n \<Rightarrow>
                         (None, w\<lparr>registry :=
                            save \<lparr>name = n, last_heartbeat = ei_timestamp info,
                                  num_reservations = 0\<rparr> (registry w)\<rparr>)
                     | ENum x \<Rightarrow> (Some TypeError, w)))))"

definition handle_worker_offline ::
  "(ev_val \<Rightarrow> py_error + int) \<Rightarrow> event \<Rightarrow> world \<Rightarrow> py_error option \<times> world" where
  "handle_worker_offline utcfromtimestamp event w =
     (case parse_and_log_event utcfromtimestamp event of
        Inl e \<Rightarrow> (Some e, w)
      | Inr info \<Rightarrow>
          (case is_resource_manager event of
             Inl e \<Rightarrow> (Some e, w)
           | Inr True \<Rightarrow> (None, w)
           | Inr False \<Rightarrow>
               (case worker_name info of
                  EStr n \<Rightarrow> (None, delete_queue_apply_async n w)
                | ENum x \<Rightarrow> (Some TypeError, w))))"

text \<open>\<^verbatim>\<open>WORKER_TIMEOUT_SECONDS = 300\<close>, \<^verbatim>\<open>FREQUENCY = 60\<close>\<close>

definition WORKER_TIMEOUT_SECONDS :: int where
  "WORKER_TIMEOUT_SECONDS = 300"

definition FREQUENCY :: int where
  "FREQUENCY = 60"

text \<open>\<^verbatim>\<open>timedelta(seconds=n)\<close>, in microseconds.\<close>

definition timedelta_seconds :: "int \<Rightarrow> int" where
  "timedelta_seconds n = n * 1000000"

text \<open>
  \<^verbatim>\<open>check_workers\<close>; \<open>utcnow\<close> is the value of \<^verbatim>\<open>datetime.utcnow()\<close>. The loop submits
  one cleanup task for each row of \<^verbatim>\<open>worker_list\<close>.
\<close>

definition check_workers :: "int \<Rightarrow> world \<Rightarrow> world" where
  "check_workers utcnow w =
     (let oldest_heartbeat_time = utcnow - timedelta_seconds WORKER_TIMEOUT_SECONDS;
          worker_list = filter_available_queues (Last_heartbeat_lt oldest_heartbeat_time) (registry w)
      in fold (\<lambda>worker w'. delete_queue_apply_async (name worker) w') worker_list w)"

section \<open>Scheduler\<close>

text \<open>
  Modelled from the spec: \<^verbatim>\<open>ScheduledCall\<close> of \<^verbatim>\<open>pulp.server.db.model.dispatch\<close>, with
  the attributes \<^verbatim>\<open>setup_schedule\<close> reads: the unique \<^verbatim>\<open>id\<close>, the nullable
  \<^verbatim>\<open>remaining_runs\<close> and \<^verbatim>\<open>last_updated\<close>, a timestamp in seconds since the epoch.
\<close>

record scheduled_call =
  call_id :: string
  remaining_runs :: "nat option"
  last_updated :: nat

text \<open>
  An entry of \<^verbatim>\<open>_schedule\<close> is either a \<^verbatim>\<open>beat.ScheduleEntry\<close> built from a value of
  \<^verbatim>\<open>CELERYBEAT_SCHEDULE\<close> under its key, or the result of \<^verbatim>\<open>call.as_schedule_entry()\<close>,
  which keeps the call it came from.
\<close>

datatype 'c schedule_entry = BeatEntry string 'c | PulpEntry scheduled_call

text \<open>
  The fields of the \<^verbatim>\<open>Scheduler\<close> object. \<^verbatim>\<open>_schedule\<close> is \<^verbatim>\<open>None\<close> after
  \<^verbatim>\<open>__init__\<close>, and \<^verbatim>\<open>_most_recent_timestamp\<close> is not set before the first
  \<^verbatim>\<open>setup_schedule\<close>.
\<close>

record 'c scheduler =
  schedule_dict :: "(string \<rightharpoonup> 'c schedule_entry) option"
  loaded_from_db_count :: nat
  most_recent_timestamp :: "nat option"
  failure_watcher :: watch_table

text \<open>
  The schedule store as the scheduler sees it: the result of \<^verbatim>\<open>utils.get_enabled()\<close> and
  the function \<^verbatim>\<open>utils.get_updated_since\<close>, both of
  \<^verbatim>\<open>pulp.server.managers.schedule.utils\<close>.
\<close>

record schedule_store =
  get_enabled :: "scheduled_call list"
  get_updated_since :: "nat \<Rightarrow> scheduled_call list"

text \<open>The state of the loop over the enabled calls in \<^verbatim>\<open>setup_schedule\<close>.\<close>

record 'c load_state =
  ls_schedule :: "string \<rightharpoonup> 'c schedule_entry"
  update_timestamps :: "nat list"
  ignored_db_count :: nat
  ls_loaded :: nat

fun load_beat_schedule ::
  "(string, 'c) dict \<Rightarrow> (string \<rightharpoonup> 'c schedule_entry) \<Rightarrow> (string \<rightharpoonup> 'c schedule_entry)" where
  "load_beat_schedule [] m = m"
| "load_beat_schedule ((key, val) # rest) m = load_beat_schedule rest (m(key \<mapsto> BeatEntry key val))"

fun load_calls :: "scheduled_call list \<Rightarrow> 'c load_state \<Rightarrow> 'c load_state" where
  "load_calls [] st = st"
| "load_calls (call # calls) st =
     load_calls calls
       (if remaining_runs call = Some 0 then st\<lparr>ignored_db_count := ignored_db_count st + 1\<rparr>
        else st\<lparr>ls_schedule := (ls_schedule st)(call_id call \<mapsto> PulpEntry call),
                update_timestamps := update_timestamps st @ [last_updated call],
                ls_loaded := ls_loaded st + 1\<rparr>)"

text \<open>\<^verbatim>\<open>max\<close> of the non-empty list \<open>x # xs\<close>.\<close>

definition py_max :: "nat \<Rightarrow> nat list \<Rightarrow> nat" where
  "py_max x xs = fold max xs x"

text \<open>
  \<^verbatim>\<open>setup_schedule\<close>; \<open>conf\<close> is \<^verbatim>\<open>self.app.conf.CELERYBEAT_SCHEDULE\<close>. The list of
  timestamps starts as \<^verbatim>\<open>[0]\<close>.
\<close>

definition setup_schedule ::
  "(string, 'c) dict \<Rightarrow> schedule_store \<Rightarrow> 'c scheduler \<Rightarrow> 'c scheduler" where
  "setup_schedule conf store s =
     (let st = load_calls (get_enabled store)
                 \<lparr>ls_schedule = load_beat_schedule conf Map.empty, update_timestamps = [0],
                  ignored_db_count = 0, ls_loaded = 0\<rparr>
      in s\<lparr>schedule_dict := Some (ls_schedule st),
            loaded_from_db_count := ls_loaded st,
            most_recent_timestamp :=
              (case update_timestamps st of [] \<Rightarrow> None | x # xs \<Rightarrow> Some (py_max x xs))\<rparr>)"

text \<open>
  \<^verbatim>\<open>schedule_changed\<close>; reading \<^verbatim>\<open>_most_recent_timestamp\<close> before it was set raises
  \<^verbatim>\<open>AttributeError\<close>.
\<close>

definition schedule_changed :: "schedule_store \<Rightarrow> 'c scheduler \<Rightarrow> py_error + bool" where
  "schedule_changed store s =
     (if length (get_enabled store) \<noteq> loaded_from_db_count s then Inr True
      else
        (case most_recent_timestamp s of
           None \<Rightarrow> Inl AttributeError
         | Some ts \<Rightarrow>
             if length (get_updated_since store ts) > 0 then Inr True else Inr False))"

text \<open>
  The \<^verbatim>\<open>schedule\<close> property; the value it returns is \<open>schedule_dict\<close> of the state it
  leaves.
\<close>

definition schedule ::
  "(string, 'c) dict \<Rightarrow> schedule_store \<Rightarrow> 'c scheduler \<Rightarrow> py_error + 'c scheduler" where
  "schedule conf store s =
     (case schedule_dict s of
        None \<Rightarrow> Inr (setup_schedule conf store s)
      | Some d \<Rightarrow>
          (case schedule_changed store s of
             Inl e \<Rightarrow> Inl e
           | Inr True \<Rightarrow> Inr (setup_schedule conf store s)
           | Inr False \<Rightarrow> Inr s))"

section \<open>Auxiliary definitions\<close>

text \<open>The calls that \<^verbatim>\<open>setup_schedule\<close> does not skip.\<close>

definition loadable :: "scheduled_call \<Rightarrow> bool" where
  "loadable call \<longleftrightarrow> remaining_runs call \<noteq> Some 0"

text \<open>\<open>n\<close> successive reads of the \<^verbatim>\<open>schedule\<close> property.\<close>

fun schedule_accesses ::
  "nat \<Rightarrow> (string, 'c) dict \<Rightarrow> schedule_store \<Rightarrow> 'c scheduler \<Rightarrow> py_error + 'c scheduler" where
  "schedule_accesses 0 conf store s = Inr s"
| "schedule_accesses (Suc n) conf store s =
     (case schedule conf store s of
        Inl e \<Rightarrow> Inl e
      | Inr s' \<Rightarrow> schedule_accesses n conf store s')"

text \<open>The cleanup task that a sweep or a \<^verbatim>\<open>worker-offline\<close> event submits for a row.\<close>

definition delete_queue_task :: "available_queue \<Rightarrow> submission" where
  "delete_queue_task worker =
     \<lparr>task = ''_delete_queue'', args = [name worker], queue = ''resource_manager''\<rparr>"

section \<open>Example data\<close>

definition watch_T :: watched_task where
  "watch_T = \<lparr>timestamp = 1000, schedule_id = ''S'', has_failure = True\<rparr>"

definition table_T :: watch_table where
  "table_T = [(''T'', watch_T)]"

definition state_T :: fw_state where
  "state_T = \<lparr>watches = table_T, store_calls = []\<rparr>"

definition watch_N :: watched_task where
  "watch_N = \<lparr>timestamp = 1000, schedule_id = ''S'', has_failure = False\<rparr>"

definition state_N :: fw_state where
  "state_N = \<lparr>watches = [(''T'', watch_N)], store_calls = []\<rparr>"

definition event_T :: event where
  "event_T = [''uuid'' \<mapsto> EStr ''T'']"

definition plain_results :: "string \<Rightarrow> task_result" where
  "plain_results task_id = OtherResult"

definition chain_results :: "string \<Rightarrow> task_result" where
  "chain_results task_id = AsyncResult ''T2''"

definition watch_new :: watched_task where
  "watch_new = \<lparr>timestamp = 19000, schedule_id = ''S'', has_failure = False\<rparr>"

definition table_old_new :: watch_table where
  "table_old_new = [(''T'', watch_T), (''N'', watch_new)]"

definition call_done :: scheduled_call where
  "call_done = \<lparr>call_id = ''done'', remaining_runs = Some 0, last_updated = 90\<rparr>"

definition call_live :: scheduled_call where
  "call_live = \<lparr>call_id = ''live'', remaining_runs = None, last_updated = 50\<rparr>"

definition no_updates :: "nat \<Rightarrow> scheduled_call list" where
  "no_updates ts = []"

definition store_ex :: schedule_store where
  "store_ex = \<lparr>get_enabled = [call_done, call_live], get_updated_since = no_updates\<rparr>"

definition conf_ex :: "(string, string) dict" where
  "conf_ex = [(''reaper'', ''pulp.server.db.reaper.reap_expired_documents'')]"

definition scheduler_init :: "string scheduler" where
  "scheduler_init =
     \<lparr>schedule_dict = None, loaded_from_db_count = 0, most_recent_timestamp = None,
      failure_watcher = []\<rparr>"

text \<open>
  A \<^verbatim>\<open>datetime.utcfromtimestamp\<close> that supports the years 1 to 9999 of
  \<^verbatim>\<open>datetime\<close>.
\<close>

fun utcfromtimestamp_years_1_9999 :: "ev_val \<Rightarrow> py_error + int" where
  "utcfromtimestamp_years_1_9999 (EStr s) = Inl TypeError"
| "utcfromtimestamp_years_1_9999 (ENum n) =
     (if - 62135596800000000 \<le> n \<and> n \<le> 253402300799999999 then Inr n else Inl ValueError)"

definition scheduler_stale :: "string scheduler" where
  "scheduler_stale =
     \<lparr>schedule_dict = Some Map.empty, loaded_from_db_count = 1,
      most_recent_timestamp = Some 0, failure_watcher = []\<rparr>"

definition event_rm :: event where
  "event_rm =
     [''hostname'' \<mapsto> EStr ''resource_manager@host1'', ''type'' \<mapsto> EStr ''worker-heartbeat'',
      ''timestamp'' \<mapsto> ENum 1000000000]"

definition event_worker :: event where
  "event_worker =
     [''hostname'' \<mapsto> EStr ''reserved_resource_worker-0@h1'',
      ''type'' \<mapsto> EStr ''worker-heartbeat'', ''timestamp'' \<mapsto> ENum 1000000000]"

definition worker_stale :: available_queue where
  "worker_stale = \<lparr>name = ''w1'', last_heartbeat = 699000000, num_reservations = 0\<rparr>"

definition worker_edge :: available_queue where
  "worker_edge = \<lparr>name = ''w2'', last_heartbeat = 700000000, num_reservations = 0\<rparr>"

definition world_ex :: world where
  "world_ex = \<lparr>registry = [worker_stale, worker_edge], submitted = []\<rparr>"

definition world_one :: world where
  "world_one = \<lparr>registry = [worker_stale], submitted = []\<rparr>"

section \<open>The watch table\<close>

lemma pop_missing:
  assumes "map_of ws task_id = None"
  shows "pop task_id ws = ((None, None), ws)"
proof -
  have "task_id \<notin> fst ` set ws"
    using assms by (simp add: map_of_eq_None_iff)
  then have "AList.delete task_id ws = ws"
    by simp
  with assms show ?thesis
    by (simp add: pop_def dict_pop_def)
qed

lemma pop_present:
  assumes "map_of ws task_id = Some w"
  shows "pop task_id ws = ((Some (schedule_id w), Some (has_failure w)), AList.delete task_id ws)"
  using assms by (simp add: pop_def dict_pop_def)

lemma pop_removes: "map_of (snd (pop task_id ws)) task_id = None"
  by (simp add: pop_def dict_pop_def delete_conv' split: option.split)

lemma snd_pop: "snd (pop task_id ws) = pop_step task_id ws"
  by (simp add: pop_def pop_step_def dict_pop_def split: option.split)

lemma pop_step_filter: "pop_step k ws = filter (\<lambda>p. fst p \<noteq> k) ws"
  by (auto simp: pop_step_def dict_pop_def AList.delete_eq case_prod_unfold intro!: filter_cong)

lemma fold_pop_step_filter: "fold pop_step ks ws = filter (\<lambda>p. fst p \<notin> set ks) ws"
  by (induction ks arbitrary: ws) (auto simp: pop_step_filter intro: filter_cong)

lemma stale_key_iff:
  assumes "distinct (map fst ws)" and "(k, w) \<in> set ws"
  shows "k \<in> set (stale_ids now ws) \<longleftrightarrow> int (timestamp w) < oldest_allowed now"
proof
  assume "k \<in> set (stale_ids now ws)"
  then obtain w' where "(k, w') \<in> set ws" and "int (timestamp w') < oldest_allowed now"
    by (auto simp: stale_ids_def)
  moreover from this assms have "w' = w"
    by (meson eq_key_imp_eq_value)
  ultimately show "int (timestamp w) < oldest_allowed now"
    by simp
next
  assume "int (timestamp w) < oldest_allowed now"
  with assms(2) show "k \<in> set (stale_ids now ws)"
    by (force simp: stale_ids_def)
qed

lemma trim_filter:
  assumes "distinct (map fst ws)"
  shows "trim now ws = filter (\<lambda>(k, w). \<not> int (timestamp w) < oldest_allowed now) ws"
  unfolding trim_def fold_pop_step_filter
  by (rule filter_cong) (auto simp: stale_key_iff [OF assms])

text \<open>The operations keep the keys of the table distinct, as a dict does.\<close>

lemma distinct_add: "distinct (map fst ws) \<Longrightarrow> distinct (map fst (add now k sid hf ws))"
  by (simp add: add_def distinct_update)

lemma distinct_pop: "distinct (map fst ws) \<Longrightarrow> distinct (map fst (snd (pop k ws)))"
  by (simp add: snd_pop pop_step_def dict_pop_def distinct_delete)

lemma distinct_trim: "distinct (map fst ws) \<Longrightarrow> distinct (map fst (trim now ws))"
  by (simp add: trim_def fold_pop_step_filter distinct_map_filter)

subsection \<open>The schedule ids in the table\<close>

text \<open>
  The table starts empty, and every operation on it keeps the schedule ids non-empty when
  \<open>add\<close> is given the id of a schedule.
\<close>

lemma schedule_ids_nonempty_init: "schedule_ids_nonempty []"
  by (simp add: schedule_ids_nonempty_def)

lemma list_all_update:
  "list_all P al \<Longrightarrow> P (k, v) \<Longrightarrow> list_all P (AList.update k v al)"
  by (induction al) auto

lemma schedule_ids_nonempty_add:
  "schedule_ids_nonempty ws \<Longrightarrow> sid \<noteq> [] \<Longrightarrow> schedule_ids_nonempty (add now k sid hf ws)"
  by (simp add: schedule_ids_nonempty_def add_def list_all_update)

lemma schedule_ids_nonempty_pop_step:
  "schedule_ids_nonempty ws \<Longrightarrow> schedule_ids_nonempty (pop_step k ws)"
  by (simp add: schedule_ids_nonempty_def pop_step_filter list_all_iff)

lemma schedule_ids_nonempty_pop:
  "schedule_ids_nonempty ws \<Longrightarrow> schedule_ids_nonempty (snd (pop k ws))"
  by (simp add: snd_pop schedule_ids_nonempty_pop_step)

lemma schedule_ids_nonempty_trim:
  "schedule_ids_nonempty ws \<Longrightarrow> schedule_ids_nonempty (trim now ws)"
  by (simp add: schedule_ids_nonempty_def trim_def fold_pop_step_filter list_all_iff)

lemma schedule_ids_nonempty_lookup:
  assumes "schedule_ids_nonempty ws" and "map_of ws task_id = Some w"
  shows "schedule_id w \<noteq> []"
proof -
  from assms(2) have "(task_id, w) \<in> set ws"
    by (rule map_of_SomeD)
  with assms(1) show ?thesis
    by (auto simp: schedule_ids_nonempty_def list_all_iff)
qed

lemma schedule_ids_nonempty_popped:
  assumes "schedule_ids_nonempty ws" and "pop k ws = (r, ws')"
  shows "schedule_ids_nonempty ws'"
  using schedule_ids_nonempty_pop [OF assms(1), of k] assms(2) by simp

lemma schedule_ids_nonempty_handle_failed_task:
  assumes "schedule_ids_nonempty (watches s)"
  shows "schedule_ids_nonempty (watches (snd (handle_failed_task event s)))"
  using assms
  by (auto simp: handle_failed_task_def
      split: option.split ev_val.split prod.split
      dest: schedule_ids_nonempty_popped)

lemma schedule_ids_nonempty_handle_succeeded_task:
  assumes "schedule_ids_nonempty (watches s)"
  shows "schedule_ids_nonempty (watches (snd (handle_succeeded_task now result_of event s)))"
  using assms
  by (auto simp: handle_succeeded_task_def
      split: option.split ev_val.split prod.split task_result.split
      intro: schedule_ids_nonempty_add
      dest: schedule_ids_nonempty_popped)

subsection \<open>Success of a watched task\<close>

text \<open>
  C1. Let the table be one that the watcher's operations produce (its schedule ids are
  non-empty), let a task-succeeded event carry the uuid of a task in the table, and let
  the task's result not be a task reference. If the watch's \<open>has_failure\<close> flag is
  true, the handler calls \<open>reset_failure_count\<close> with the watch's schedule id exactly
  once; if the flag is false it makes no store call. In both cases the watch is removed
  from the table and nothing else changes.
\<close>

theorem C1_success_resets_only_after_failure:
  assumes "schedule_ids_nonempty (watches s)"
    and "event ''uuid'' = Some (EStr uuid)"
    and "map_of (watches s) uuid = Some w"
    and "result_of uuid = OtherResult"
  shows "handle_succeeded_task now result_of event s =
           (None, s\<lparr>watches := AList.delete uuid (watches s),
                     store_calls := store_calls s @
                       (if has_failure w then [reset_failure_count (schedule_id w)] else [])\<rparr>)
         \<and> map_of (watches (snd (handle_succeeded_task now result_of event s))) uuid = None"
proof -
  have "schedule_id w \<noteq> []"
    using assms(1,3) by (rule schedule_ids_nonempty_lookup)
  then have "handle_succeeded_task now result_of event s =
           (None, s\<lparr>watches := AList.delete uuid (watches s),
                     store_calls := store_calls s @
                       (if has_failure w then [reset_failure_count (schedule_id w)] else [])\<rparr>)"
    using assms by (simp add: handle_succeeded_task_def pop_present)
  then show ?thesis
    by (simp add: delete_conv')
qed

theorem C1_success_resets_only_after_failure_witness:
  "schedule_ids_nonempty (watches state_T)
   \<and> event_T ''uuid'' = Some (EStr ''T'')
   \<and> map_of (watches state_T) ''T'' = Some watch_T
   \<and> has_failure watch_T
   \<and> plain_results ''T'' = OtherResult
   \<and> handle_succeeded_task 2000 plain_results event_T state_T =
       (None, \<lparr>watches = [], store_calls = [reset_failure_count ''S'']\<rparr>)
   \<and> schedule_ids_nonempty (watches state_N)
   \<and> map_of (watches state_N) ''T'' = Some watch_N
   \<and> \<not> has_failure watch_N
   \<and> handle_succeeded_task 2000 plain_results event_T state_N =
       (None, \<lparr>watches = [], store_calls = []\<rparr>)"
  using C1_success_resets_only_after_failure
    [of state_T event_T "''T''" watch_T plain_results 2000]
    C1_success_resets_only_after_failure
    [of state_N event_T "''T''" watch_N plain_results 2000]
  by (simp add: event_T_def state_T_def table_T_def watch_T_def state_N_def watch_N_def
      plain_results_def schedule_ids_nonempty_def)

subsection \<open>Failure of a watched task\<close>

text \<open>
  C2. Let the table be one that the watcher's operations produce (its schedule ids are
  non-empty), and let a task-failed event carry a uuid. If the uuid is in the table, the
  handler calls \<open>increment_failure_count\<close> with the watch's schedule id exactly once,
  whatever the \<open>has_failure\<close> flag, and removes the watch, so that the uuid is no longer
  in the table. If the uuid is not in the table, the handler makes no store call and
  changes nothing.
\<close>

theorem C2_failure_increments_once:
  assumes "schedule_ids_nonempty (watches s)"
    and "event ''uuid'' = Some (EStr uuid)"
  shows "(map_of (watches s) uuid = Some w \<longrightarrow>
            handle_failed_task event s =
              (None, s\<lparr>watches := AList.delete uuid (watches s),
                        store_calls := store_calls s @ [increment_failure_count (schedule_id w)]\<rparr>)
            \<and> map_of (watches (snd (handle_failed_task event s))) uuid = None)
         \<and> (map_of (watches s) uuid = None \<longrightarrow> handle_failed_task event s = (None, s))"
proof -
  have tracked: "handle_failed_task event s =
      (None, s\<lparr>watches := AList.delete uuid (watches s),
                store_calls := store_calls s @ [increment_failure_count (schedule_id w)]\<rparr>)"
    if present: "map_of (watches s) uuid = Some w"
  proof -
    have "schedule_id w \<noteq> []"
      using assms(1) present by (rule schedule_ids_nonempty_lookup)
    then show ?thesis
      using assms(2) present by (simp add: handle_failed_task_def pop_present)
  qed
  have untracked: "handle_failed_task event s = (None, s)"
    if "map_of (watches s) uuid = None"
    using assms(2) that by (simp add: handle_failed_task_def pop_missing)
  show ?thesis
    using tracked untracked by (simp add: delete_conv')
qed

theorem C2_failure_increments_once_witness:
  "schedule_ids_nonempty (watches state_T)
   \<and> event_T ''uuid'' = Some (EStr ''T'')
   \<and> map_of (watches state_T) ''T'' = Some watch_T
   \<and> handle_failed_task event_T state_T =
       (None, \<lparr>watches = [], store_calls = [increment_failure_count ''S'']\<rparr>)
   \<and> len (watches (snd (handle_failed_task event_T state_T))) = 0
   \<and> map_of (watches state_N) ''T'' = Some watch_N
   \<and> handle_failed_task event_T state_N =
       (None, \<lparr>watches = [], store_calls = [increment_failure_count ''S'']\<rparr>)
   \<and> map_of (watches \<lparr>watches = [], store_calls = []\<rparr>) ''T'' = None
   \<and> handle_failed_task event_T \<lparr>watches = [], store_calls = []\<rparr> =
       (None, \<lparr>watches = [], store_calls = []\<rparr>)"
  using C2_failure_increments_once [of state_T event_T "''T''" watch_T]
    C2_failure_increments_once [of state_N event_T "''T''" watch_N]
    C2_failure_increments_once [of "\<lparr>watches = [], store_calls = []\<rparr>" event_T "''T''"]
  by (simp add: event_T_def state_T_def table_T_def watch_T_def state_N_def watch_N_def
      len_def schedule_ids_nonempty_def)

subsection \<open>Success with a task reference as the result\<close>

text \<open>
  C3. Let the table be one that the watcher's operations produce (its schedule ids are
  non-empty), let a task-succeeded event carry the uuid of a task in the table, and let
  the task's result be a reference to a task \<open>child\<close>. Then the parent's watch is
  removed and a watch for \<open>child\<close> is added with the same schedule id and the same
  \<open>has_failure\<close> flag, stamped with the current time; no store call is made; and, the
  child being another task than the parent, the parent uuid is no longer in the table.
\<close>

theorem C3_success_with_task_result_moves_the_watch:
  assumes "schedule_ids_nonempty (watches s)"
    and "event ''uuid'' = Some (EStr uuid)"
    and "map_of (watches s) uuid = Some w"
    and "result_of uuid = AsyncResult child"
  shows "handle_succeeded_task now result_of event s =
           (None, s\<lparr>watches := add now child (schedule_id w) (has_failure w)
                                  (AList.delete uuid (watches s))\<rparr>)
         \<and> map_of (watches (snd (handle_succeeded_task now result_of event s))) child =
             Some \<lparr>timestamp = now, schedule_id = schedule_id w, has_failure = has_failure w\<rparr>
         \<and> (child \<noteq> uuid \<longrightarrow>
              map_of (watches (snd (handle_succeeded_task now result_of event s))) uuid = None)
         \<and> store_calls (snd (handle_succeeded_task now result_of event s)) = store_calls s"
proof -
  have "schedule_id w \<noteq> []"
    using assms(1,3) by (rule schedule_ids_nonempty_lookup)
  then have "handle_succeeded_task now result_of event s =
           (None, s\<lparr>watches := add now child (schedule_id w) (has_failure w)
                                  (AList.delete uuid (watches s))\<rparr>)"
    using assms by (simp add: handle_succeeded_task_def pop_present)
  then show ?thesis
    by (simp add: add_def update_conv' delete_conv')
qed

theorem C3_success_with_task_result_moves_the_watch_witness:
  "schedule_ids_nonempty (watches state_T)
   \<and> event_T ''uuid'' = Some (EStr ''T'')
   \<and> map_of (watches state_T) ''T'' = Some watch_T
   \<and> chain_results ''T'' = AsyncResult ''T2''
   \<and> ''T2'' \<noteq> ''T''
   \<and> handle_succeeded_task 2000 chain_results event_T state_T =
       (None, \<lparr>watches = [(''T2'', \<lparr>timestamp = 2000, schedule_id = ''S'', has_failure = True\<rparr>)],
               store_calls = []\<rparr>)
   \<and> map_of (watches (snd (handle_succeeded_task 2000 chain_results event_T state_T))) ''T'' = None"
  using C3_success_with_task_result_moves_the_watch
    [of state_T event_T "''T''" watch_T chain_results "''T2''" 2000]
  by (simp add: event_T_def state_T_def table_T_def watch_T_def chain_results_def add_def
      schedule_ids_nonempty_def)

subsection \<open>Trimming\<close>

text \<open>
  C4. For every watch table and every time \<open>t\<close> (the clock reading
  \<^verbatim>\<open>int(time.time())\<close>, in whole seconds), \<open>trim\<close> at time \<open>t\<close> removes exactly the
  entries whose timestamp is strictly less than \<open>t - 14400\<close>: what remains is the table
  without those entries, every remaining entry has a timestamp of at least \<open>t - 14400\<close>,
  every entry with such a timestamp is still in the table, and every older entry is gone.
\<close>

theorem C4_trim_removes_exactly_the_expired:
  assumes "distinct (map fst ws)"
  shows "trim t ws = filter (\<lambda>(task_id, w). int t - 14400 \<le> int (timestamp w)) ws
    \<and> (\<forall>(task_id, w) \<in> set (trim t ws). int t - 14400 \<le> int (timestamp w))
    \<and> (\<forall>(task_id, w) \<in> set ws.
          int t - 14400 \<le> int (timestamp w) \<longrightarrow> map_of (trim t ws) task_id = Some w)
    \<and> (\<forall>(task_id, w) \<in> set ws.
          int (timestamp w) < int t - 14400 \<longrightarrow> map_of (trim t ws) task_id = None)"
proof -
  have eq: "trim t ws = filter (\<lambda>(task_id, w). int t - 14400 \<le> int (timestamp w)) ws"
    unfolding trim_filter [OF assms]
    by (rule filter_cong) (auto simp: oldest_allowed_def ttl_def)
  have dist: "distinct (map fst (trim t ws))"
    using assms by (rule distinct_trim)
  have kept: "map_of (trim t ws) task_id = Some w"
    if "(task_id, w) \<in> set ws" and "int t - 14400 \<le> int (timestamp w)" for task_id w
  proof -
    from that have "(task_id, w) \<in> set (trim t ws)"
      by (simp add: eq)
    with dist show ?thesis
      by simp
  qed
  have gone: "map_of (trim t ws) task_id = None"
    if "(task_id, w) \<in> set ws" and "int (timestamp w) < int t - 14400" for task_id w
  proof (rule ccontr)
    assume "map_of (trim t ws) task_id \<noteq> None"
    then obtain w' where "(task_id, w') \<in> set (trim t ws)"
      by (auto dest: map_of_SomeD)
    then have "(task_id, w') \<in> set ws" and fresh: "int t - 14400 \<le> int (timestamp w')"
      by (simp_all add: eq)
    with assms that(1) have "w' = w"
      by (meson eq_key_imp_eq_value)
    with fresh that(2) show False
      by simp
  qed
  show ?thesis
    using eq kept gone by (auto simp: eq)
qed

theorem C4_trim_removes_exactly_the_expired_witness:
  "distinct (map fst table_old_new)
   \<and> trim 20000 table_old_new = [(''N'', watch_new)]
   \<and> map_of (trim 20000 table_old_new) ''T'' = None
   \<and> map_of (trim 20000 table_old_new) ''N'' = Some watch_new"
  using C4_trim_removes_exactly_the_expired [of table_old_new 20000]
  by (simp add: table_old_new_def watch_T_def watch_new_def)

subsection \<open>Popping\<close>

text \<open>
  C5. \<open>pop\<close> is a total function with no error result. On a task id that is not in the
  table it returns the sentinel pair \<open>(None, None)\<close> and leaves the table as it is; after
  any \<open>pop\<close> the id is absent from the table, so a second \<open>pop\<close> of the same id returns
  the sentinel pair.
\<close>

theorem C5_pop_total_and_removing:
  "(map_of ws task_id = None \<longrightarrow> pop task_id ws = ((None, None), ws))
   \<and> map_of (snd (pop task_id ws)) task_id = None
   \<and> task_id \<notin> fst ` set (snd (pop task_id ws))
   \<and> fst (pop task_id (snd (pop task_id ws))) = (None, None)"
proof -
  have absent: "map_of (snd (pop task_id ws)) task_id = None"
    by (rule pop_removes)
  have "pop task_id (snd (pop task_id ws)) = ((None, None), snd (pop task_id ws))"
    using absent by (rule pop_missing)
  then show ?thesis
    using absent by (auto simp: pop_missing map_of_eq_None_iff)
qed

theorem C5_pop_total_and_removing_witness:
  "map_of table_T ''U'' = None \<and> pop ''U'' table_T = ((None, None), table_T)
   \<and> fst (pop ''T'' table_T) = (Some ''S'', Some True)
   \<and> fst (pop ''T'' (snd (pop ''T'' table_T))) = (None, None)"
proof -
  have "map_of table_T ''U'' = None"
    by (simp add: table_T_def)
  moreover have "fst (pop ''T'' table_T) = (Some ''S'', Some True)"
    by (simp add: table_T_def watch_T_def pop_def dict_pop_def)
  ultimately show ?thesis
    using C5_pop_total_and_removing [of table_T "''U''"]
      C5_pop_total_and_removing [of table_T "''T''"]
    by simp
qed

section \<open>Worker events and the timeout sweep\<close>

lemma is_resource_manager_prefix:
  assumes "event ''hostname'' = Some (EStr (RESOURCE_MANAGER_PREFIX @ rest))"
  shows "is_resource_manager event = Inr True"
  using assms by (simp add: is_resource_manager_def)

text \<open>
  C9. For every \<^verbatim>\<open>worker-heartbeat\<close> and every \<^verbatim>\<open>worker-offline\<close> event whose hostname
  begins with \<^verbatim>\<open>resource_manager@\<close>, the handler leaves the worker registry and the list
  of submitted tasks as they were, whatever \<^verbatim>\<open>datetime.utcfromtimestamp\<close> does with the
  timestamp; when the event has a timestamp that converts and a type, the handler returns
  without an error.
\<close>

theorem C9_resource_manager_events_are_dropped:
  assumes "event ''hostname'' = Some (EStr (RESOURCE_MANAGER_PREFIX @ rest))"
  shows "snd (handle_worker_heartbeat utcfromtimestamp event w) = w
    \<and> snd (handle_worker_offline utcfromtimestamp event w) = w
    \<and> (\<forall>ts dt ty. event ''timestamp'' = Some ts \<and> utcfromtimestamp ts = Inr dt
            \<and> event ''type'' = Some ty \<longrightarrow>
          handle_worker_heartbeat utcfromtimestamp event w = (None, w)
          \<and> handle_worker_offline utcfromtimestamp event w = (None, w))"
  using is_resource_manager_prefix [of event rest] assms
  by (auto simp: handle_worker_heartbeat_def handle_worker_offline_def parse_and_log_event_def
      split: sum.split option.split)

theorem C9_resource_manager_events_are_dropped_witness:
  "event_rm ''hostname'' = Some (EStr (RESOURCE_MANAGER_PREFIX @ ''host1''))
   \<and> event_rm ''timestamp'' = Some (ENum 1000000000)
   \<and> utcfromtimestamp_years_1_9999 (ENum 1000000000) = Inr 1000000000
   \<and> event_rm ''type'' = Some (EStr ''worker-heartbeat'')
   \<and> handle_worker_heartbeat utcfromtimestamp_years_1_9999 event_rm world_ex = (None, world_ex)
   \<and> handle_worker_offline utcfromtimestamp_years_1_9999 event_rm world_ex = (None, world_ex)"
  using C9_resource_manager_events_are_dropped
    [of event_rm "''host1''" utcfromtimestamp_years_1_9999 world_ex]
  by (simp add: event_rm_def RESOURCE_MANAGER_PREFIX_def)

text \<open>
  An event of an ordinary worker is not dropped: its heartbeat adds the row of a worker
  that is not in the registry, and its going offline submits the cleanup task. An event of
  the resource manager whose timestamp is out of range raises the error of the conversion
  and changes nothing.
\<close>

lemma heartbeat_of_new_worker:
  "handle_worker_heartbeat utcfromtimestamp_years_1_9999 event_worker
       \<lparr>registry = [], submitted = []\<rparr> =
     (None, \<lparr>registry = [\<lparr>name = ''reserved_resource_worker-0@h1'',
                           last_heartbeat = 1000000000, num_reservations = 0\<rparr>],
             submitted = []\<rparr>)"
  by (simp add: handle_worker_heartbeat_def parse_and_log_event_def is_resource_manager_def
      RESOURCE_MANAGER_PREFIX_def event_worker_def save_def)

lemma offline_of_worker:
  "handle_worker_offline utcfromtimestamp_years_1_9999 event_worker
       \<lparr>registry = [], submitted = []\<rparr> =
     (None, \<lparr>registry = [],
             submitted = [\<lparr>task = ''_delete_queue'', args = [''reserved_resource_worker-0@h1''],
                           queue = ''resource_manager''\<rparr>]\<rparr>)"
  by (simp add: handle_worker_offline_def parse_and_log_event_def is_resource_manager_def
      RESOURCE_MANAGER_PREFIX_def RESOURCE_MANAGER_QUEUE_def event_worker_def
      delete_queue_apply_async_def)

lemma heartbeat_with_timestamp_out_of_range:
  "handle_worker_heartbeat utcfromtimestamp_years_1_9999
       (event_rm(''timestamp'' \<mapsto> ENum 1000000000000000000)) world_ex =
     (Some ValueError, world_ex)"
  by (simp add: handle_worker_heartbeat_def parse_and_log_event_def event_rm_def)

lemma fold_delete_queue:
  "fold (\<lambda>worker w'. delete_queue_apply_async (name worker) w') workers w =
     w\<lparr>submitted := submitted w @ map delete_queue_task workers\<rparr>"
  by (induction workers arbitrary: w)
    (simp_all add: delete_queue_apply_async_def delete_queue_task_def RESOURCE_MANAGER_QUEUE_def)

lemma check_workers_eq:
  "check_workers t w =
     w\<lparr>submitted := submitted w @
         map delete_queue_task
           (filter (\<lambda>r. last_heartbeat r < t - timedelta_seconds 300) (registry w))\<rparr>"
  by (simp add: check_workers_def Let_def fold_delete_queue WORKER_TIMEOUT_SECONDS_def)

lemma delete_queue_task_eq:
  "delete_queue_task r = delete_queue_task r' \<longleftrightarrow> name r = name r'"
  by (simp add: delete_queue_task_def)

lemma count_delete_queue_task:
  assumes "distinct (map name rows)" and "r \<in> set rows"
  shows "count_list (map delete_queue_task (filter P rows)) (delete_queue_task r) =
    (if P r then 1 else 0)"
  using assms
proof (induction rows)
  case Nil
  then show ?case by simp
next
  case (Cons a rows)
  show ?case
  proof (cases "r = a")
    case True
    with Cons.prems have "name r \<notin> name ` set rows"
      by simp
    then have "delete_queue_task r \<notin> set (map delete_queue_task (filter P rows))"
      by (auto simp: delete_queue_task_eq)
    then have "count_list (map delete_queue_task (filter P rows)) (delete_queue_task r) = 0"
      by (rule count_notin)
    with True show ?thesis
      by simp
  next
    case False
    with Cons.prems have "r \<in> set rows" and "name a \<noteq> name r" and "distinct (map name rows)"
      by auto
    with Cons.IH show ?thesis
      by (simp add: delete_queue_task_eq)
  qed
qed

text \<open>
  C10. One sweep at time \<open>t\<close> leaves the registry as it is and appends to the submitted
  tasks, in the order of the rows, one \<^verbatim>\<open>_delete_queue\<close> task with the worker's name, on
  the queue \<^verbatim>\<open>resource_manager\<close>, for each row whose last heartbeat is strictly older than
  \<open>t\<close> minus 300 seconds, and nothing else. With the names of the rows distinct, a row
  with such a heartbeat gets exactly one submission and any other row none. A registry of
  a single row that is 301 seconds stale yields exactly one submission.
\<close>

theorem C10_sweep_submits_one_cleanup_per_stale_worker:
  "submitted (check_workers t w) =
     submitted w @
       map delete_queue_task
         (filter (\<lambda>r. last_heartbeat r < t - timedelta_seconds 300) (registry w))
   \<and> registry (check_workers t w) = registry w
   \<and> (distinct (map name (registry w)) \<longrightarrow>
        (\<forall>r \<in> set (registry w).
           count_list (drop (length (submitted w)) (submitted (check_workers t w)))
               (delete_queue_task r) =
             (if last_heartbeat r < t - timedelta_seconds 300 then 1 else 0)))
   \<and> (\<forall>r. registry w = [r] \<and> last_heartbeat r = t - timedelta_seconds 301 \<longrightarrow>
         submitted (check_workers t w) = submitted w @ [delete_queue_task r])"
proof (intro conjI ballI allI impI)
  show "submitted (check_workers t w) =
     submitted w @
       map delete_queue_task
         (filter (\<lambda>r. last_heartbeat r < t - timedelta_seconds 300) (registry w))"
    by (simp add: check_workers_eq)
  show "registry (check_workers t w) = registry w"
    by (simp add: check_workers_eq)
next
  fix r
  assume "distinct (map name (registry w))" and "r \<in> set (registry w)"
  then show "count_list (drop (length (submitted w)) (submitted (check_workers t w)))
               (delete_queue_task r) =
             (if last_heartbeat r < t - timedelta_seconds 300 then 1 else 0)"
    by (simp add: check_workers_eq count_delete_queue_task)
next
  fix r
  assume "registry w = [r] \<and> last_heartbeat r = t - timedelta_seconds 301"
  then show "submitted (check_workers t w) = submitted w @ [delete_queue_task r]"
    by (simp add: check_workers_eq timedelta_seconds_def)
qed

theorem C10_sweep_submits_one_cleanup_per_stale_worker_witness:
  "distinct (map name (registry world_ex))
   \<and> last_heartbeat worker_stale = 1000000000 - timedelta_seconds 301
   \<and> last_heartbeat worker_edge = 1000000000 - timedelta_seconds 300
   \<and> submitted (check_workers 1000000000 world_ex) =
       [\<lparr>task = ''_delete_queue'', args = [''w1''], queue = ''resource_manager''\<rparr>]
   \<and> registry world_one = [worker_stale]
   \<and> submitted (check_workers 1000000000 world_one) =
       [\<lparr>task = ''_delete_queue'', args = [''w1''], queue = ''resource_manager''\<rparr>]"
  using C10_sweep_submits_one_cleanup_per_stale_worker [of 1000000000 world_ex]
    C10_sweep_submits_one_cleanup_per_stale_worker [of 1000000000 world_one]
  by (simp add: world_ex_def world_one_def worker_stale_def worker_edge_def
      timedelta_seconds_def delete_queue_task_def)

section \<open>Loading the schedule\<close>

lemma load_calls_loaded:
  "ls_loaded (load_calls calls st) = ls_loaded st + length (filter loadable calls)"
  by (induction calls arbitrary: st) (simp_all add: loadable_def)

lemma load_calls_timestamps:
  "update_timestamps (load_calls calls st) =
     update_timestamps st @ map last_updated (filter loadable calls)"
  by (induction calls arbitrary: st) (simp_all add: loadable_def)

lemma load_calls_other_key:
  "k \<notin> call_id ` set (filter loadable calls) \<Longrightarrow>
     ls_schedule (load_calls calls st) k = ls_schedule st k"
  by (induction calls arbitrary: st) (auto simp: loadable_def)

lemma load_calls_inserted:
  assumes "distinct (map call_id calls)" and "c \<in> set calls" and "loadable c"
  shows "ls_schedule (load_calls calls st) (call_id c) = Some (PulpEntry c)"
  using assms
proof (induction calls arbitrary: st)
  case Nil
  then show ?case by simp
next
  case (Cons a calls)
  show ?case
  proof (cases "c = a")
    case True
    with Cons.prems have "call_id c \<notin> call_id ` set (filter loadable calls)"
      by auto
    then show ?thesis
      using True Cons.prems(3) by (simp add: load_calls_other_key loadable_def)
  next
    case False
    with Cons.prems have "c \<in> set calls" and "distinct (map call_id calls)"
      by auto
    then show ?thesis
      using Cons.IH Cons.prems(3) by simp
  qed
qed

lemma load_calls_pulp_entry:
  "ls_schedule (load_calls calls st) k = Some (PulpEntry c) \<Longrightarrow>
     (c \<in> set calls \<and> loadable c) \<or> ls_schedule st k = Some (PulpEntry c)"
proof (induction calls arbitrary: st)
  case Nil
  then show ?case by simp
next
  case (Cons a calls)
  from Cons.IH [OF Cons.prems [simplified]] show ?case
    by (auto simp: loadable_def split: if_splits)
qed

lemma load_beat_schedule_no_pulp_entry:
  "load_beat_schedule conf m k = Some (PulpEntry c) \<Longrightarrow> m k = Some (PulpEntry c)"
  by (induction conf m rule: load_beat_schedule.induct) (auto split: if_splits)

lemma py_max_Max: "py_max x xs = Max (set (x # xs))"
  unfolding py_max_def by (rule Max.set_eq_fold [symmetric])

lemma py_max_zero:
  "py_max 0 xs = (if xs = [] then 0 else Max (set xs))"
proof (cases xs)
  case Nil
  then show ?thesis by (simp add: py_max_def)
next
  case (Cons y ys)
  have "Max (insert 0 (set xs)) = max 0 (Max (set xs))"
    using Cons by (intro Max_insert) auto
  then show ?thesis
    using Cons by (simp add: py_max_Max)
qed

lemma setup_schedule_idem:
  "setup_schedule conf store (setup_schedule conf store s) = setup_schedule conf store s"
  by (simp add: setup_schedule_def Let_def)

lemma setup_schedule_count:
  "loaded_from_db_count (setup_schedule conf store s) =
     length (filter loadable (get_enabled store))"
  by (simp add: setup_schedule_def Let_def load_calls_loaded)

text \<open>
  C7. Let the store return enabled calls with pairwise distinct ids. After
  \<open>setup_schedule\<close>, every returned call whose \<open>remaining_runs\<close> is not 0 is in the
  schedule under its id, and every entry of the schedule that comes from a call comes from
  a returned call whose \<open>remaining_runs\<close> is not 0, so a call with \<open>remaining_runs = 0\<close>
  never appears; the other keys hold the entries of the static configuration.
  \<open>loaded_from_db_count\<close> is the number of inserted calls, and
  \<open>most_recent_timestamp\<close> is the maximum \<open>last_updated\<close> among the inserted calls, or
  0 when none was inserted.
\<close>

theorem C7_setup_schedule_loads_the_calls_with_runs_left:
  assumes "distinct (map call_id (get_enabled store))"
  shows "\<exists>d. schedule_dict (setup_schedule conf store s) = Some d
      \<and> (\<forall>c \<in> set (get_enabled store).
            remaining_runs c \<noteq> Some 0 \<longrightarrow> d (call_id c) = Some (PulpEntry c))
      \<and> (\<forall>k c. d k = Some (PulpEntry c) \<longrightarrow>
            c \<in> set (get_enabled store) \<and> remaining_runs c \<noteq> Some 0)
      \<and> (\<forall>k. k \<notin> call_id ` {c \<in> set (get_enabled store). remaining_runs c \<noteq> Some 0} \<longrightarrow>
            d k = load_beat_schedule conf Map.empty k)
      \<and> loaded_from_db_count (setup_schedule conf store s) =
            length (filter (\<lambda>c. remaining_runs c \<noteq> Some 0) (get_enabled store))
      \<and> most_recent_timestamp (setup_schedule conf store s) =
            Some (if filter (\<lambda>c. remaining_runs c \<noteq> Some 0) (get_enabled store) = [] then 0
                  else Max (last_updated `
                         {c \<in> set (get_enabled store). remaining_runs c \<noteq> Some 0}))"
proof -
  define st0 :: "'a load_state" where
    "st0 = \<lparr>ls_schedule = load_beat_schedule conf Map.empty, update_timestamps = [0],
            ignored_db_count = 0, ls_loaded = 0\<rparr>"
  define st where "st = load_calls (get_enabled store) st0"
  define s' where "s' = setup_schedule conf store s"
  have loadable_eq: "loadable = (\<lambda>c. remaining_runs c \<noteq> Some 0)"
    by (simp add: loadable_def fun_eq_iff)
  have ts: "update_timestamps st = 0 # map last_updated (filter loadable (get_enabled store))"
    by (simp add: st_def st0_def load_calls_timestamps)
  have dict: "schedule_dict s' = Some (ls_schedule st)"
    by (simp add: s'_def setup_schedule_def st_def st0_def Let_def)
  have count: "loaded_from_db_count s' = length (filter loadable (get_enabled store))"
    by (simp add: s'_def setup_schedule_count)
  have "most_recent_timestamp s' =
      Some (py_max 0 (map last_updated (filter loadable (get_enabled store))))"
    using ts by (simp add: s'_def setup_schedule_def st_def st0_def Let_def)
  then have recent: "most_recent_timestamp s' =
      Some (if filter loadable (get_enabled store) = [] then 0
            else Max (last_updated ` {c \<in> set (get_enabled store). loadable c}))"
    by (simp add: py_max_zero)
  have ins: "ls_schedule st (call_id c) = Some (PulpEntry c)"
    if "c \<in> set (get_enabled store)" and "loadable c" for c
    using assms that by (simp add: st_def load_calls_inserted)
  have only: "c \<in> set (get_enabled store) \<and> loadable c"
    if "ls_schedule st k = Some (PulpEntry c)" for k c
  proof -
    from that have "(c \<in> set (get_enabled store) \<and> loadable c)
        \<or> ls_schedule st0 k = Some (PulpEntry c)"
      unfolding st_def by (rule load_calls_pulp_entry)
    moreover have "ls_schedule st0 k \<noteq> Some (PulpEntry c)"
      using load_beat_schedule_no_pulp_entry [of conf Map.empty k c] by (auto simp: st0_def)
    ultimately show ?thesis
      by simp
  qed
  have other: "ls_schedule st k = load_beat_schedule conf Map.empty k"
    if "k \<notin> call_id ` {c \<in> set (get_enabled store). loadable c}" for k
  proof -
    from that have "k \<notin> call_id ` set (filter loadable (get_enabled store))"
      by auto
    then show ?thesis
      by (simp add: st_def st0_def load_calls_other_key)
  qed
  show ?thesis
    unfolding s'_def [symmetric]
  proof (intro exI [of _ "ls_schedule st"] conjI allI ballI impI)
    show "schedule_dict s' = Some (ls_schedule st)"
      by (rule dict)
  next
    fix c assume "c \<in> set (get_enabled store)" "remaining_runs c \<noteq> Some 0"
    then show "ls_schedule st (call_id c) = Some (PulpEntry c)"
      by (simp add: ins loadable_def)
  next
    fix k c assume "ls_schedule st k = Some (PulpEntry c)"
    from only [OF this] show "c \<in> set (get_enabled store)" "remaining_runs c \<noteq> Some 0"
      by (simp_all add: loadable_def)
  next
    fix k assume "k \<notin> call_id ` {c \<in> set (get_enabled store). remaining_runs c \<noteq> Some 0}"
    then show "ls_schedule st k = load_beat_schedule conf Map.empty k"
      using other [of k] by (simp add: loadable_def)
  next
    show "loaded_from_db_count s' =
        length (filter (\<lambda>c. remaining_runs c \<noteq> Some 0) (get_enabled store))"
      using count by (simp add: loadable_eq)
  next
    show "most_recent_timestamp s' =
        Some (if filter (\<lambda>c. remaining_runs c \<noteq> Some 0) (get_enabled store) = [] then 0
              else Max (last_updated `
                     {c \<in> set (get_enabled store). remaining_runs c \<noteq> Some 0}))"
      using recent by (simp add: loadable_eq)
  qed
qed

theorem C7_setup_schedule_loads_the_calls_with_runs_left_witness:
  "distinct (map call_id (get_enabled store_ex))
   \<and> (\<exists>d. schedule_dict (setup_schedule conf_ex store_ex scheduler_init) = Some d
         \<and> d ''live'' = Some (PulpEntry call_live)
         \<and> d ''done'' = None
         \<and> d ''reaper'' =
             Some (BeatEntry ''reaper'' ''pulp.server.db.reaper.reap_expired_documents''))
   \<and> loaded_from_db_count (setup_schedule conf_ex store_ex scheduler_init) = 1
   \<and> most_recent_timestamp (setup_schedule conf_ex store_ex scheduler_init) = Some 50"
proof -
  have ids: "distinct (map call_id (get_enabled store_ex))"
    by (simp add: store_ex_def call_done_def call_live_def)
  have keys: "''done'' \<notin> call_id ` {c \<in> set (get_enabled store_ex). remaining_runs c \<noteq> Some 0}"
    "''reaper'' \<notin> call_id ` {c \<in> set (get_enabled store_ex). remaining_runs c \<noteq> Some 0}"
    by (auto simp: store_ex_def call_done_def call_live_def)
  from C7_setup_schedule_loads_the_calls_with_runs_left [OF ids, of conf_ex scheduler_init]
  obtain d where d: "schedule_dict (setup_schedule conf_ex store_ex scheduler_init) = Some d"
    and ins: "\<forall>c \<in> set (get_enabled store_ex).
        remaining_runs c \<noteq> Some 0 \<longrightarrow> d (call_id c) = Some (PulpEntry c)"
    and other: "\<forall>k. k \<notin> call_id ` {c \<in> set (get_enabled store_ex). remaining_runs c \<noteq> Some 0} \<longrightarrow>
        d k = load_beat_schedule conf_ex Map.empty k"
    and count: "loaded_from_db_count (setup_schedule conf_ex store_ex scheduler_init) =
        length (filter (\<lambda>c. remaining_runs c \<noteq> Some 0) (get_enabled store_ex))"
    and recent: "most_recent_timestamp (setup_schedule conf_ex store_ex scheduler_init) =
        Some (if filter (\<lambda>c. remaining_runs c \<noteq> Some 0) (get_enabled store_ex) = [] then 0
              else Max (last_updated `
                     {c \<in> set (get_enabled store_ex). remaining_runs c \<noteq> Some 0}))"
    by blast
  have "d ''live'' = Some (PulpEntry call_live)"
    using ins by (simp add: store_ex_def call_done_def call_live_def)
  moreover have "d ''done'' = None"
    using other keys(1) by (simp add: conf_ex_def)
  moreover have "d ''reaper'' =
      Some (BeatEntry ''reaper'' ''pulp.server.db.reaper.reap_expired_documents'')"
    using other keys(2) by (simp add: conf_ex_def)
  moreover have "loaded_from_db_count (setup_schedule conf_ex store_ex scheduler_init) = 1"
    using count by (simp add: store_ex_def call_done_def call_live_def)
  moreover have "{c. (c = call_done \<or> c = call_live) \<and> remaining_runs c \<noteq> Some 0} = {call_live}"
    by (auto simp: call_done_def call_live_def)
  then have "most_recent_timestamp (setup_schedule conf_ex store_ex scheduler_init) = Some 50"
    using recent by (simp add: store_ex_def call_done_def call_live_def)
  ultimately show ?thesis
    using ids d by simp
qed

section \<open>Detecting a changed schedule\<close>

lemma skipped_call_count:
  assumes "c \<in> set calls" and "remaining_runs c = Some 0"
  shows "length (filter loadable calls) < length calls"
proof -
  have "\<not> loadable c"
    using assms(2) by (simp add: loadable_def)
  with assms(1) show ?thesis
    by (meson length_filter_less)
qed

lemma schedule_changed_after_setup:
  assumes "c \<in> set (get_enabled store)" and "remaining_runs c = Some 0"
  shows "schedule_changed store (setup_schedule conf store s) = Inr True"
  using skipped_call_count [OF assms]
  by (simp add: schedule_changed_def setup_schedule_count)

lemma schedule_after_setup:
  assumes "c \<in> set (get_enabled store)" and "remaining_runs c = Some 0"
  shows "schedule conf store (setup_schedule conf store s) = Inr (setup_schedule conf store s)"
proof -
  have "schedule_dict (setup_schedule conf store s) \<noteq> None"
    by (simp add: setup_schedule_def Let_def)
  then show ?thesis
    using schedule_changed_after_setup [OF assms, of conf s]
    by (auto simp: schedule_def setup_schedule_idem split: option.split)
qed

lemma schedule_accesses_after_setup:
  assumes "c \<in> set (get_enabled store)" and "remaining_runs c = Some 0"
  shows "schedule_accesses n conf store (setup_schedule conf store s) =
    Inr (setup_schedule conf store s)"
  by (induction n) (simp_all add: schedule_after_setup [OF assms])

text \<open>
  Without a skipped call, and with nothing updated since the load, the schedule is seen
  as unchanged after \<open>setup_schedule\<close>.
\<close>

lemma schedule_unchanged_after_setup:
  assumes "\<forall>c \<in> set (get_enabled store). remaining_runs c \<noteq> Some 0"
    and "\<forall>ts. get_updated_since store ts = []"
  shows "schedule_changed store (setup_schedule conf store s) = Inr False"
proof -
  have "filter loadable (get_enabled store) = get_enabled store"
    using assms(1) by (simp add: loadable_def)
  moreover have "most_recent_timestamp (setup_schedule conf store s) \<noteq> None"
    by (simp add: setup_schedule_def Let_def load_calls_timestamps)
  ultimately show ?thesis
    using assms(2) by (auto simp: schedule_changed_def setup_schedule_count)
qed

lemma schedule_rebuilds_when_changed:
  assumes "schedule_changed store s = Inr True"
  shows "schedule conf store s = Inr (setup_schedule conf store s)"
  using assms by (simp add: schedule_def split: option.split)

lemma schedule_changed_with_smaller_count:
  assumes "loaded_from_db_count s < length (get_enabled store)"
  shows "schedule_changed store s = Inr True"
  using assms by (simp add: schedule_changed_def)

text \<open>
  C8. Let the store return an enabled call with \<open>remaining_runs = 0\<close>. After
  \<open>setup_schedule\<close> on this store, \<open>loaded_from_db_count\<close> is smaller than the number of
  enabled calls, so \<open>schedule_changed\<close> on the same store returns true. In every state of
  the scheduler that carries this count, whatever its other fields, \<open>schedule_changed\<close>
  is true and a read of the \<open>schedule\<close> property runs \<open>setup_schedule\<close>: the result of
  the read is the state rebuilt by \<open>setup_schedule\<close>, not the state as it was. The same
  holds after any number of reads.
\<close>

theorem C8_skipped_call_keeps_schedule_changed:
  assumes "c \<in> set (get_enabled store)" and "remaining_runs c = Some 0"
  shows "loaded_from_db_count (setup_schedule conf store s) < length (get_enabled store)
    \<and> schedule_changed store (setup_schedule conf store s) = Inr True
    \<and> (\<forall>s'. loaded_from_db_count s' = loaded_from_db_count (setup_schedule conf store s) \<longrightarrow>
          schedule_changed store s' = Inr True
          \<and> schedule conf store s' = Inr (setup_schedule conf store s'))
    \<and> (\<forall>s'. schedule_changed store s' = Inr True \<longrightarrow>
          schedule conf store s' = Inr (setup_schedule conf store s'))
    \<and> (\<forall>n. \<exists>s'. schedule_accesses n conf store (setup_schedule conf store s) = Inr s'
          \<and> schedule_changed store s' = Inr True
          \<and> schedule conf store s' = Inr (setup_schedule conf store s'))"
proof (intro conjI allI impI)
  show less: "loaded_from_db_count (setup_schedule conf store s) < length (get_enabled store)"
    using skipped_call_count [OF assms] by (simp add: setup_schedule_count)
  show "schedule_changed store (setup_schedule conf store s) = Inr True"
    by (rule schedule_changed_after_setup [OF assms])
  show "schedule conf store s' = Inr (setup_schedule conf store s')"
    if "schedule_changed store s' = Inr True" for s'
    using that by (rule schedule_rebuilds_when_changed)
  fix s' :: "'a scheduler"
  assume "loaded_from_db_count s' = loaded_from_db_count (setup_schedule conf store s)"
  with less have "loaded_from_db_count s' < length (get_enabled store)"
    by simp
  then show changed: "schedule_changed store s' = Inr True"
    by (rule schedule_changed_with_smaller_count)
  then show "schedule conf store s' = Inr (setup_schedule conf store s')"
    by (rule schedule_rebuilds_when_changed)
next
  fix n
  have "schedule_changed store (setup_schedule conf store s) = Inr True"
    by (rule schedule_changed_after_setup [OF assms])
  then show "\<exists>s'. schedule_accesses n conf store (setup_schedule conf store s) = Inr s'
      \<and> schedule_changed store s' = Inr True
      \<and> schedule conf store s' = Inr (setup_schedule conf store s')"
    by (simp add: schedule_accesses_after_setup [OF assms] schedule_rebuilds_when_changed)
qed

theorem C8_skipped_call_keeps_schedule_changed_witness:
  "call_done \<in> set (get_enabled store_ex)
   \<and> remaining_runs call_done = Some 0
   \<and> loaded_from_db_count (setup_schedule conf_ex store_ex scheduler_init) = 1
   \<and> length (get_enabled store_ex) = 2
   \<and> schedule_changed store_ex (setup_schedule conf_ex store_ex scheduler_init) = Inr True
   \<and> loaded_from_db_count scheduler_stale = 1
   \<and> schedule conf_ex store_ex scheduler_stale = Inr (setup_schedule conf_ex store_ex scheduler_stale)
   \<and> most_recent_timestamp (setup_schedule conf_ex store_ex scheduler_stale) = Some 50
   \<and> setup_schedule conf_ex store_ex scheduler_stale \<noteq> scheduler_stale"
proof -
  have member: "call_done \<in> set (get_enabled store_ex)" "remaining_runs call_done = Some 0"
    by (simp_all add: store_ex_def call_done_def)
  have count: "loaded_from_db_count (setup_schedule conf_ex store_ex scheduler_init) = 1"
    by (simp add: setup_schedule_def store_ex_def call_done_def call_live_def)
  have stale: "loaded_from_db_count scheduler_stale = 1"
    by (simp add: scheduler_stale_def)
  have recent: "most_recent_timestamp (setup_schedule conf_ex store_ex scheduler_stale) = Some 50"
    by (simp add: setup_schedule_def store_ex_def call_done_def call_live_def py_max_def)
  then have "setup_schedule conf_ex store_ex scheduler_stale \<noteq> scheduler_stale"
    by (auto simp: scheduler_stale_def)
  moreover have "length (get_enabled store_ex) = 2"
    by (simp add: store_ex_def)
  ultimately show ?thesis
    using member count stale recent
      C8_skipped_call_keeps_schedule_changed
        [of call_done store_ex conf_ex scheduler_init]
    by simp
qed

end
